theory Spec2Isabelle
  imports Main
begin

section \<open>Python values and text\<close>

text \<open>
  The rows handed to \<open>SanralTender.from_api_response\<close> come out of \<open>response.json()\<close>,
  so an input is any JSON value. Text is modelled as \<open>string\<close> over the ASCII
  repertoire, on which the methods of Python's \<open>str\<close> used by the code are closed.
  A float is kept as a mantissa and a binary exponent; the code never looks inside one.
\<close>

datatype pyval =
    PyNone
  | PyBool bool
  | PyInt int
  | PyFloat int int
  | PyStr string
  | PyList "pyval list"
  | PyDict "(string \<times> pyval) list"

datatype error = ValueError | TypeError | AttributeError | OtherError

fun truthy :: "pyval \<Rightarrow> bool" where
  "truthy PyNone = False"
| "truthy (PyBool b) = b"
| "truthy (PyInt i) = (i \<noteq> 0)"
| "truthy (PyFloat m e) = (m \<noteq> 0)"
| "truthy (PyStr s) = (s \<noteq> [])"
| "truthy (PyList xs) = (xs \<noteq> [])"
| "truthy (PyDict d) = (d \<noteq> [])"

fun is_str :: "pyval \<Rightarrow> bool" where
  "is_str (PyStr s) = True"
| "is_str v = False"

fun is_list :: "pyval \<Rightarrow> bool" where
  "is_list (PyList xs) = True"
| "is_list v = False"

subsection \<open>Character classes\<close>

definition upper_letters :: string where
  "upper_letters = ''ABCDEFGHIJKLMNOPQRSTUVWXYZ''"

definition lower_letters :: string where
  "lower_letters = ''abcdefghijklmnopqrstuvwxyz''"

definition is_upper :: "char \<Rightarrow> bool" where
  "is_upper c = (c \<in> set upper_letters)"

definition is_lower :: "char \<Rightarrow> bool" where
  "is_lower c = (c \<in> set lower_letters)"

definition is_alpha :: "char \<Rightarrow> bool" where
  "is_alpha c = (is_upper c \<or> is_lower c)"

definition is_digit :: "char \<Rightarrow> bool" where
  "is_digit c = (c \<in> set ''0123456789'')"

text \<open>
  The ASCII characters for which \<open>str.isspace\<close> holds, which are also the ones
  \<open>\s\<close> matches: tab, line feed, vertical tab, form feed, carriage return, the four
  separators 0x1C to 0x1F, and the space.
\<close>

definition is_space :: "char \<Rightarrow> bool" where
  "is_space c = (c \<in> set [CHR 0x09, CHR 0x0A, CHR 0x0B, CHR 0x0C, CHR 0x0D,
                            CHR 0x1C, CHR 0x1D, CHR 0x1E, CHR 0x1F, CHR 0x20])"

definition to_lower :: "char \<Rightarrow> char" where
  "to_lower c = (case map_of (zip upper_letters lower_letters) c of Some d \<Rightarrow> d | None \<Rightarrow> c)"

definition to_upper :: "char \<Rightarrow> char" where
  "to_upper c = (case map_of (zip lower_letters upper_letters) c of Some d \<Rightarrow> d | None \<Rightarrow> c)"

subsection \<open>The methods of \<open>str\<close> the code calls\<close>

definition str_lower :: "string \<Rightarrow> string" where
  "str_lower s = map to_lower s"

definition str_upper :: "string \<Rightarrow> string" where
  "str_upper s = map to_upper s"

text \<open>
  \<open>str.title\<close>: a character that follows a cased character is lower-cased, any other
  character is title-cased; the flag is whether the previous character was cased.
\<close>

fun title_from :: "bool \<Rightarrow> string \<Rightarrow> string" where
  "title_from prev [] = []"
| "title_from prev (c # cs) =
     (if prev then to_lower c else to_upper c) # title_from (is_alpha c) cs"

definition str_title :: "string \<Rightarrow> string" where
  "str_title s = title_from False s"

definition str_strip :: "string \<Rightarrow> string" where
  "str_strip s = rev (dropWhile is_space (rev (dropWhile is_space s)))"

text \<open>
  \<open>str.split()\<close> with no argument: the maximal runs of non-whitespace characters.
  \<open>split_from w s\<close> carries the word read so far, reversed.
\<close>

fun split_from :: "string \<Rightarrow> string \<Rightarrow> string list" where
  "split_from w [] = (if w = [] then [] else [rev w])"
| "split_from w (c # cs) =
     (if is_space c then (if w = [] then split_from [] cs else rev w # split_from [] cs)
      else split_from (c # w) cs)"

definition str_split :: "string \<Rightarrow> string list" where
  "str_split s = split_from [] s"

fun str_join :: "string \<Rightarrow> string list \<Rightarrow> string" where
  "str_join sep [] = []"
| "str_join sep [w] = w"
| "str_join sep (w # ws) = w @ sep @ str_join sep ws"

text \<open>The idiom \<open>' '.join(s.split())\<close>.\<close>

definition collapse_ws :: "string \<Rightarrow> string" where
  "collapse_ws s = str_join '' '' (str_split s)"

text \<open>
  \<open>s.replace(old, new)\<close> for a non-empty \<open>old\<close>: the occurrences are found from the
  left and do not overlap; what a replacement leaves behind is not scanned again.
\<close>

function str_replace :: "string \<Rightarrow> string \<Rightarrow> string \<Rightarrow> string" where
  "str_replace old new [] = []"
| "str_replace old new (c # cs) =
     (if old \<noteq> [] \<and> take (length old) (c # cs) = old
      then new @ str_replace old new (drop (length old) (c # cs))
      else c # str_replace old new cs)"
  by pat_completeness auto
termination
  by (relation "measure (\<lambda>(old, new, s). length s)") auto

section \<open>Regular expressions\<close>

text \<open>
  Every pattern of the program is a sequence of items without nesting: a character class
  repeated at least \<open>n\<close> times, greedily or lazily, or an alternation of fixed-length
  sequences of classes. \<open>splits\<close> lists the ways one item can consume a prefix, in the
  order the backtracking engine of \<open>re\<close> tries them, and \<open>match_items\<close> returns the first
  way through the whole sequence: the text of each item and the rest of the input.
\<close>

datatype item =
    Rep "char \<Rightarrow> bool" nat bool
  | Alts "(char \<Rightarrow> bool) list list"

definition matches_at :: "(char \<Rightarrow> bool) list \<Rightarrow> string \<Rightarrow> bool" where
  "matches_at ps s = (length ps \<le> length s \<and> list_all2 (\<lambda>p c. p c) ps (take (length ps) s))"

fun splits :: "item \<Rightarrow> string \<Rightarrow> (string \<times> string) list" where
  "splits (Rep p n greedy) s =
     (let k = length (takeWhile p s);
          ks = (if greedy then rev [n ..< Suc k] else [n ..< Suc k])
      in map (\<lambda>j. (take j s, drop j s)) ks)"
| "splits (Alts alts) s =
     map (\<lambda>ps. (take (length ps) s, drop (length ps) s)) (filter (\<lambda>ps. matches_at ps s) alts)"

fun first_some :: "('a \<Rightarrow> 'b option) \<Rightarrow> 'a list \<Rightarrow> 'b option" where
  "first_some f [] = None"
| "first_some f (x # xs) = (case f x of Some y \<Rightarrow> Some y | None \<Rightarrow> first_some f xs)"

primrec match_items :: "item list \<Rightarrow> string \<Rightarrow> (string list \<times> string) option" where
  "match_items [] s = Some ([], s)"
| "match_items (i # is) s =
     first_some (\<lambda>(seg, rest). map_option (\<lambda>(segs, r). (seg # segs, r)) (match_items is rest))
       (splits i s)"

text \<open>\<open>re.search\<close>: the leftmost start at which the pattern matches.\<close>

fun re_search :: "item list \<Rightarrow> string \<Rightarrow> (string list \<times> string) option" where
  "re_search its [] = match_items its []"
| "re_search its (c # cs) =
     (case match_items its (c # cs) of Some m \<Rightarrow> Some m | None \<Rightarrow> re_search its cs)"

text \<open>
  \<open>re.findall\<close> for a pattern without groups: the matches from left to right, each
  search starting where the previous match ended. After an empty match the scan moves
  one character on.
\<close>

function findall :: "item list \<Rightarrow> string \<Rightarrow> string list" where
  "findall its s =
     (case match_items its s of
        None \<Rightarrow> (case s of [] \<Rightarrow> [] | c # cs \<Rightarrow> findall its cs)
      | Some (segs, rest) \<Rightarrow>
          concat segs #
            (if length rest < length s then findall its rest
             else (case s of [] \<Rightarrow> [] | c # cs \<Rightarrow> findall its cs)))"
  by pat_completeness auto
termination
  by (relation "measure (\<lambda>(its, s). length s)") auto

declare findall.simps [simp del]

definition lit :: "char \<Rightarrow> char \<Rightarrow> bool" where
  "lit c x = (x = c)"

text \<open>A literal under \<open>re.IGNORECASE\<close>.\<close>

definition lit_ci :: "char \<Rightarrow> char \<Rightarrow> bool" where
  "lit_ci c x = (to_lower x = to_lower c)"

definition one_of :: "string \<Rightarrow> char \<Rightarrow> bool" where
  "one_of cs x = (x \<in> set cs)"

section \<open>Dates\<close>

text \<open>What \<open>datetime.strptime\<close> returns: a naive \<open>datetime\<close>.\<close>

record datetime =
  dt_year :: nat
  dt_month :: nat
  dt_day :: nat
  dt_hour :: nat
  dt_minute :: nat
  dt_second :: nat
  dt_microsecond :: nat

definition is_leap :: "nat \<Rightarrow> bool" where
  "is_leap y = (y mod 4 = 0 \<and> (y mod 100 \<noteq> 0 \<or> y mod 400 = 0))"

definition days_in_month :: "nat \<Rightarrow> nat \<Rightarrow> nat" where
  "days_in_month y m =
     (if m = 2 then (if is_leap y then 29 else 28)
      else if m \<in> {4, 6, 9, 11} then 30 else 31)"

text \<open>
  The constructor \<open>datetime(year, month, day, hour, minute)\<close>, which raises
  \<open>ValueError\<close> on a field out of range.
\<close>

definition make_datetime :: "nat \<Rightarrow> nat \<Rightarrow> nat \<Rightarrow> nat \<Rightarrow> nat \<Rightarrow> error + datetime" where
  "make_datetime y m d h mi =
     (if 1 \<le> y \<and> y \<le> 9999 \<and> 1 \<le> m \<and> m \<le> 12 \<and> 1 \<le> d \<and> d \<le> days_in_month y m
         \<and> h \<le> 23 \<and> mi \<le> 59
      then Inr \<lparr>dt_year = y, dt_month = m, dt_day = d, dt_hour = h, dt_minute = mi,
                dt_second = 0, dt_microsecond = 0\<rparr>
      else Inl ValueError)"

subsection \<open>\<open>strptime\<close>\<close>

text \<open>
  \<open>strptime\<close> turns the format into a regular expression: a directive becomes the
  alternation Python's \<open>_strptime.TimeRE\<close> holds for it, a run of whitespace becomes
  \<open>\s+\<close>, any other character stands for itself; the expression is compiled with
  \<open>re.IGNORECASE\<close>. Only the directives of the program's formats are modelled.
\<close>

datatype ftok = FDir char | FWs | FLit char

fun fmt_toks :: "string \<Rightarrow> ftok list option" where
  "fmt_toks [] = Some []"
| "fmt_toks (c # cs) =
     (if c = CHR ''%'' then
        (case cs of [] \<Rightarrow> None | d # ds \<Rightarrow> map_option (Cons (FDir d)) (fmt_toks ds))
      else if is_space c then
        (if cs \<noteq> [] \<and> is_space (hd cs) then fmt_toks cs else map_option (Cons FWs) (fmt_toks cs))
      else map_option (Cons (FLit c)) (fmt_toks cs))"

definition digit :: "char \<Rightarrow> bool" where
  "digit = is_digit"

text \<open>
  The full month names of the C locale, lower-cased, as \<open>LocaleTime.f_month\<close> has them,
  and in the order \<open>sorted(..., key=len, reverse=True)\<close> puts them in the alternation.
\<close>

definition f_month :: "string list" where
  "f_month = [''january'', ''february'', ''march'', ''april'', ''may'', ''june'', ''july'',
              ''august'', ''september'', ''october'', ''november'', ''december'']"

definition f_month_by_length :: "string list" where
  "f_month_by_length = [''september'', ''february'', ''november'', ''december'', ''january'',
                        ''october'', ''august'', ''march'', ''april'', ''june'', ''july'', ''may'']"

definition directive :: "char \<Rightarrow> item option" where
  "directive d =
     (if d = CHR ''Y'' then Some (Alts [ [digit, digit, digit, digit] ])
      else if d = CHR ''m'' then
        Some (Alts [ [lit (CHR ''1''), one_of ''012''], [lit (CHR ''0''), one_of ''123456789''],
                    [one_of ''123456789''] ])
      else if d = CHR ''d'' then
        Some (Alts [ [lit (CHR ''3''), one_of ''01''], [one_of ''12'', digit],
                    [lit (CHR ''0''), one_of ''123456789''], [one_of ''123456789''],
                    [lit (CHR '' ''), one_of ''123456789''] ])
      else if d = CHR ''H'' then
        Some (Alts [ [lit (CHR ''2''), one_of ''0123''], [one_of ''01'', digit], [digit] ])
      else if d = CHR ''M'' then
        Some (Alts [ [one_of ''012345'', digit], [digit] ])
      else if d = CHR ''B'' then
        Some (Alts (map (map lit_ci) f_month_by_length))
      else None)"

fun item_of :: "ftok \<Rightarrow> item option" where
  "item_of (FDir d) = directive d"
| "item_of FWs = Some (Rep is_space 1 True)"
| "item_of (FLit c) = Some (Alts [ [lit_ci c] ])"

fun those_items :: "ftok list \<Rightarrow> item list option" where
  "those_items [] = Some []"
| "those_items (t # ts) =
     (case item_of t of None \<Rightarrow> None
      | Some i \<Rightarrow> map_option (Cons i) (those_items ts))"

definition digit_val :: "char \<Rightarrow> nat" where
  "digit_val c = (case map_of (zip ''0123456789'' [0, 1, 2, 3, 4, 5, 6, 7, 8, 9]) c of
                    Some n \<Rightarrow> n | None \<Rightarrow> 0)"

text \<open>\<open>int(s)\<close> on the text of a numeric directive: decimal digits after optional blanks.\<close>

definition py_int :: "string \<Rightarrow> nat" where
  "py_int s = foldl (\<lambda>a c. 10 * a + digit_val c) 0 (dropWhile is_space s)"

fun index_of :: "'a \<Rightarrow> 'a list \<Rightarrow> nat" where
  "index_of x [] = 0"
| "index_of x (y # ys) = (if x = y then 0 else Suc (index_of x ys))"

text \<open>
  The fields found, starting from the defaults of \<open>_strptime\<close>: year 1900, month and day 1,
  hour and minute 0.
\<close>

record fields =
  f_year :: nat
  f_mon :: nat
  f_day :: nat
  f_hour :: nat
  f_min :: nat

definition default_fields :: fields where
  "default_fields = \<lparr>f_year = 1900, f_mon = 1, f_day = 1, f_hour = 0, f_min = 0\<rparr>"

fun set_field :: "ftok \<Rightarrow> string \<Rightarrow> fields \<Rightarrow> fields" where
  "set_field (FDir d) seg f =
     (if d = CHR ''Y'' then f\<lparr>f_year := py_int seg\<rparr>
      else if d = CHR ''m'' then f\<lparr>f_mon := py_int seg\<rparr>
      else if d = CHR ''B'' then f\<lparr>f_mon := Suc (index_of (str_lower seg) f_month)\<rparr>
      else if d = CHR ''d'' then f\<lparr>f_day := py_int seg\<rparr>
      else if d = CHR ''H'' then f\<lparr>f_hour := py_int seg\<rparr>
      else if d = CHR ''M'' then f\<lparr>f_min := py_int seg\<rparr>
      else f)"
| "set_field t seg f = f"

fun set_fields :: "ftok list \<Rightarrow> string list \<Rightarrow> fields \<Rightarrow> fields" where
  "set_fields (t # ts) (seg # segs) f = set_fields ts segs (set_field t seg f)"
| "set_fields ts segs f = f"

text \<open>
  \<open>datetime.strptime(data, fmt)\<close>: \<open>ValueError\<close> when the format is bad, when the data
  does not match, when the match leaves data unconverted, and when the fields are no date.
\<close>

definition strptime :: "string \<Rightarrow> string \<Rightarrow> error + datetime" where
  "strptime data fmt =
     (case fmt_toks fmt of None \<Rightarrow> Inl ValueError
      | Some toks \<Rightarrow>
          (case those_items toks of None \<Rightarrow> Inl ValueError
           | Some its \<Rightarrow>
               (case match_items its data of None \<Rightarrow> Inl ValueError
                | Some (segs, rest) \<Rightarrow>
                    if rest \<noteq> [] then Inl ValueError
                    else (let f = set_fields toks segs default_fields
                          in make_datetime (f_year f) (f_mon f) (f_day f) (f_hour f) (f_min f)))))"

subsection \<open>\<open>parse_sanral_date\<close>\<close>

definition formats_to_try :: "string list" where
  "formats_to_try = [''%Y/%m/%d %H:%M'', ''%d/%m/%Y'', ''%d %B %Y. %HH%M'']"

text \<open>
  The body of the \<open>try\<close> block for one format. A format containing the letter \<open>H\<close>
  has the dots and the letters \<open>H\<close> removed from the data before parsing.
\<close>

definition attempt :: "string \<Rightarrow> string \<Rightarrow> error + datetime" where
  "attempt cleaned_str fmt =
     (if CHR ''H'' \<in> set fmt
      then strptime (str_replace ''H'' [] (str_replace ''.'' [] cleaned_str)) fmt
      else strptime cleaned_str fmt)"

text \<open>
  The loop over the formats: \<open>ValueError\<close> and \<open>TypeError\<close> move on to the next format,
  any other exception leaves the function.
\<close>

fun try_formats :: "string \<Rightarrow> string list \<Rightarrow> error + datetime option" where
  "try_formats cleaned_str [] = Inr None"
| "try_formats cleaned_str (fmt # fmts) =
     (case attempt cleaned_str fmt of
        Inr d \<Rightarrow> Inr (Some d)
      | Inl e \<Rightarrow> if e = ValueError \<or> e = TypeError then try_formats cleaned_str fmts else Inl e)"

fun str_of :: "pyval \<Rightarrow> string" where
  "str_of (PyStr s) = s"
| "str_of v = []"

definition parse_sanral_date :: "pyval \<Rightarrow> error + datetime option" where
  "parse_sanral_date date_str =
     (if \<not> truthy date_str \<or> \<not> is_str date_str then Inr None
      else try_formats (str_strip (str_of date_str)) formats_to_try)"

section \<open>The collaborators\<close>

text \<open>
  What the code reaches outside itself is a parameter of the model:
  \<^item> \<open>charref_sub\<close> is the substitution \<open>_charref.sub(_replace_charref, s)\<close> that
    \<open>html.unescape\<close> runs on a string containing an ampersand (its table of named
    entities is not part of the program);
  \<^item> \<open>http_get\<close> is \<open>requests.get\<close> on the detail URL: either an exception of
    \<open>requests\<close>, or a response with its status code and body;
  \<^item> \<open>soup\<close> is \<open>BeautifulSoup(text, 'html.parser')\<close> followed by the four look-ups of
    the code, each giving the text found or nothing; the parser may raise instead.
\<close>

datatype http_result = RequestException | Response nat string

text \<open>
  The four look-ups: the text of the \<open>h2\<close> inside the \<open>div\<close> of class \<open>page-header\<close>,
  the text of the first \<open>h3\<close>, the text of the cell next to the cell labelled
  \<open>Tender Notice:\<close>, and the text of the cell next to the header cell \<open>Create Date\<close>;
  each is absent when the element (or its sibling) is not found.
\<close>

record page =
  header_h2 :: "string option"
  first_h3 :: "string option"
  notice_cell :: "string option"
  create_date_cell :: "string option"

record env =
  charref_sub :: "string \<Rightarrow> string"
  http_get :: "string \<Rightarrow> http_result"
  soup :: "string \<Rightarrow> error + page"

text \<open>What the code does to the world: the requests it sends and the warnings it logs.\<close>

datatype event = HttpGet string | LogWarning

section \<open>The models\<close>

record supporting_doc =
  doc_name :: string
  doc_url :: string

record tender =
  title :: string
  description :: string
  source :: string
  published_date :: "datetime option"
  closing_date :: "datetime option"
  supporting_docs :: "supporting_doc list"
  tags :: "string list"
  tender_number :: string
  category :: string
  region :: string
  email :: string
  full_notice_text :: string

text \<open>
  \<open>SanralTender.__init__\<close> through \<open>TenderBase.__init__\<close>: an absent list of documents
  or of tags becomes the empty list.
\<close>

definition SanralTender ::
  "string \<Rightarrow> string \<Rightarrow> string \<Rightarrow> datetime option \<Rightarrow> datetime option \<Rightarrow>
   supporting_doc list option \<Rightarrow> string list option \<Rightarrow>
   string \<Rightarrow> string \<Rightarrow> string \<Rightarrow> string \<Rightarrow> string \<Rightarrow> tender" where
  "SanralTender t d src pub clo docs tgs num cat reg em txt =
     \<lparr>title = t, description = d, source = src, published_date = pub, closing_date = clo,
      supporting_docs = (case docs of Some ds \<Rightarrow> ds | None \<Rightarrow> []),
      tags = (case tgs of Some ts \<Rightarrow> ts | None \<Rightarrow> []),
      tender_number = num, category = cat, region = reg, email = em, full_notice_text = txt\<rparr>"

subsection \<open>Library calls on values that need not be strings\<close>

text \<open>
  \<open>html.unescape(s)\<close> starts with \<open>if '&' not in s: return s\<close>. The test raises
  \<open>TypeError\<close> on a value that is no container; a list or a dict without the element
  (the key) \<open>'&'\<close> is returned as it is, and one with it is handed to the regular
  expression, which raises \<open>TypeError\<close>.
\<close>

definition html_unescape :: "env \<Rightarrow> string \<Rightarrow> string" where
  "html_unescape E s = (if CHR ''&'' \<notin> set s then s else charref_sub E s)"

fun unescape :: "env \<Rightarrow> pyval \<Rightarrow> error + pyval" where
  "unescape E (PyStr s) = Inr (PyStr (html_unescape E s))"
| "unescape E (PyList xs) = (if PyStr ''&'' \<notin> set xs then Inr (PyList xs) else Inl TypeError)"
| "unescape E (PyDict d) = (if ''&'' \<notin> fst ` set d then Inr (PyDict d) else Inl TypeError)"
| "unescape E v = Inl TypeError"

text \<open>\<open>' '.join(v.split())\<close>: a value without the method \<open>split\<close> raises \<open>AttributeError\<close>.\<close>

fun split_join :: "pyval \<Rightarrow> error + string" where
  "split_join (PyStr s) = Inr (collapse_ws s)"
| "split_join v = Inl AttributeError"

text \<open>\<open>v.strip().title()\<close>, likewise.\<close>

fun strip_title :: "pyval \<Rightarrow> error + string" where
  "strip_title (PyStr s) = Inr (str_title (str_strip s))"
| "strip_title v = Inl AttributeError"

subsection \<open>The patterns\<close>

text \<open>
  \<open>href="([^"]+)">\s*(.*?)\s*</a>\<close> under \<open>re.IGNORECASE\<close>; group 1 is the second item
  and group 2 the fifth. The dot does not match a line feed.
\<close>

definition href_rx :: "item list" where
  "href_rx =
     [Alts [map lit_ci ''href='' @ [lit (CHR 0x22)] ],
      Rep (\<lambda>c. c \<noteq> CHR 0x22) 1 True,
      Alts [ [lit (CHR 0x22), lit (CHR ''>'')] ],
      Rep is_space 0 True,
      Rep (\<lambda>c. c \<noteq> CHR 0x0A) 0 False,
      Rep is_space 0 True,
      Alts [map lit_ci ''</a>''] ]"

text \<open>\<open>re.search\<close> of that pattern in a value: \<open>TypeError\<close> unless it is a string.\<close>

fun search_href :: "pyval \<Rightarrow> error + (string \<times> string) option" where
  "search_href (PyStr s) =
     Inr (case re_search href_rx s of None \<Rightarrow> None
          | Some (segs, rest) \<Rightarrow> Some (segs ! 1, segs ! 4))"
| "search_href v = Inl TypeError"

text \<open>\<open>[a-zA-Z0-9._%+-]+@[a-zA-Z0-9.-]+\.[a-zA-Z]{2,}\<close>\<close>

definition local_char :: "char \<Rightarrow> bool" where
  "local_char c = (is_alpha c \<or> is_digit c \<or> c \<in> set ''._%+-'')"

definition domain_char :: "char \<Rightarrow> bool" where
  "domain_char c = (is_alpha c \<or> is_digit c \<or> c \<in> set ''.-'')"

definition email_rx :: "item list" where
  "email_rx =
     [Rep local_char 1 True, Alts [ [lit (CHR ''@'')] ], Rep domain_char 1 True,
      Alts [ [lit (CHR ''.'')] ], Rep is_alpha 2 True]"

subsection \<open>\<open>SanralTender.from_api_response\<close>\<close>

definition portal_origin :: string where
  "portal_origin = ''https://www.nra.co.za''"

text \<open>
  Step 1 of the code, on a row that passed the initial validation: the values of the
  local variables \<open>url\<close>, \<open>tender_number\<close>, \<open>description\<close>, \<open>full_notice_text\<close> and
  \<open>close_date\<close> before the detail page is looked at.
\<close>

record provisional =
  p_url :: "string option"
  p_tender_number :: string
  p_description :: string
  p_full_notice_text :: string
  p_close_date :: "datetime option"

definition parse_row :: "env \<Rightarrow> pyval list \<Rightarrow> error + provisional" where
  "parse_row E response_item =
     (case unescape E (response_item ! 0) of Inl e \<Rightarrow> Inl e
      | Inr title_html \<Rightarrow>
     (case search_href title_html of Inl e \<Rightarrow> Inl e
      | Inr match \<Rightarrow>
     (let (url, number) =
            (case match of
               None \<Rightarrow> (None, ''N/A'')
             | Some (url_path, text) \<Rightarrow>
                 (if url_path \<noteq> [] then Some (portal_origin @ url_path) else None,
                  collapse_ws text))
      in
     (case unescape E (response_item ! 3) of Inl e \<Rightarrow> Inl e
      | Inr d \<Rightarrow>
     (case split_join d of Inl e \<Rightarrow> Inl e
      | Inr d' \<Rightarrow>
     (let initial_description = str_strip (str_replace ''Tender Notice:'' [] d')
      in
     (case unescape E (response_item ! 4) of Inl e \<Rightarrow> Inl e
      | Inr f \<Rightarrow>
     (case split_join f of Inl e \<Rightarrow> Inl e
      | Inr notice \<Rightarrow>
     (case parse_sanral_date (response_item ! 5) of Inl e \<Rightarrow> Inl e
      | Inr close_date \<Rightarrow>
          Inr \<lparr>p_url = url, p_tender_number = number,
               p_description = initial_description,
               p_full_notice_text = notice, p_close_date = close_date\<rparr>)))))))))"

text \<open>
  Step 2: the local variables \<open>title\<close>, \<open>description\<close>, \<open>full_notice_text\<close> and
  \<open>pub_date\<close>, which the scrape may overwrite.
\<close>

record draft =
  d_title :: string
  d_description :: string
  d_full_notice_text :: string
  d_pub_date :: "datetime option"

definition apply_page :: "page \<Rightarrow> draft \<Rightarrow> draft \<times> event list" where
  "apply_page pg d0 =
     (let d1 = (case header_h2 pg of Some t \<Rightarrow> d0\<lparr>d_title := t\<rparr> | None \<Rightarrow> d0);
          d2 = (case first_h3 pg of Some t \<Rightarrow> d1\<lparr>d_description := t\<rparr> | None \<Rightarrow> d1);
          d3 = (case notice_cell pg of Some t \<Rightarrow> d2\<lparr>d_full_notice_text := t\<rparr> | None \<Rightarrow> d2)
      in case create_date_cell pg of
           None \<Rightarrow> (d3, [])
         | Some pub_date_str \<Rightarrow>
             (case strptime pub_date_str ''%B %d, %Y'' of
                Inr dt \<Rightarrow> (d3\<lparr>d_pub_date := Some dt\<rparr>, [])
              | Inl e \<Rightarrow> (d3, [LogWarning])))"

text \<open>
  The \<open>try\<close> block. \<open>raise_for_status\<close> raises on a status from 400 to 599. Every
  exception is caught by \<open>except (requests.exceptions.RequestException, Exception)\<close> and
  answered with a warning; the variables keep the values they had.
\<close>

definition scrape :: "env \<Rightarrow> string \<Rightarrow> draft \<Rightarrow> draft \<times> event list" where
  "scrape E url d0 =
     (case http_get E url of
        RequestException \<Rightarrow> (d0, [HttpGet url, LogWarning])
      | Response status_code text \<Rightarrow>
          if 400 \<le> status_code \<and> status_code < 600 then (d0, [HttpGet url, LogWarning])
          else (case soup E text of
                  Inl e \<Rightarrow> (d0, [HttpGet url, LogWarning])
                | Inr pg \<Rightarrow> (let (d, evs) = apply_page pg d0 in (d, HttpGet url # evs))))"

text \<open>Step 3: the last address found in the notice text, lower-cased, or the empty string.\<close>

definition extract_email :: "string \<Rightarrow> string" where
  "extract_email notice =
     (let emails_found = findall email_rx notice
      in if emails_found \<noteq> [] then str_lower (last emails_found) else [])"

fun items_of :: "pyval \<Rightarrow> pyval list" where
  "items_of (PyList xs) = xs"
| "items_of v = []"

text \<open>
  The whole method: the events it causes, and either the exception that leaves it or
  its return value, \<open>None\<close> or a tender.
\<close>

definition from_api_response :: "env \<Rightarrow> pyval \<Rightarrow> event list \<times> (error + tender option)" where
  "from_api_response E response_item =
     (if \<not> is_list response_item \<or> length (items_of response_item) < 6 then ([], Inr None)
      else
        (case parse_row E (items_of response_item) of
           Inl e \<Rightarrow> ([], Inl e)
         | Inr p \<Rightarrow>
             (let d0 = \<lparr>d_title = p_tender_number p, d_description = p_description p,
                        d_full_notice_text = p_full_notice_text p, d_pub_date = None\<rparr>;
                  (d, evs) = (case p_url p of None \<Rightarrow> (d0, []) | Some url \<Rightarrow> scrape E url d0);
                  address = extract_email (d_full_notice_text d);
                  doc_list = (case p_url p of None \<Rightarrow> []
                              | Some url \<Rightarrow> [\<lparr>doc_name = ''Tender Details'', doc_url = url\<rparr>])
              in
                (case strip_title (items_of response_item ! 1) of
                   Inl e \<Rightarrow> (evs, Inl e)
                 | Inr cat \<Rightarrow>
                     (case strip_title (items_of response_item ! 2) of
                        Inl e \<Rightarrow> (evs, Inl e)
                      | Inr reg \<Rightarrow>
                          (evs, Inr (Some (SanralTender
                             (str_title (d_title d)) (str_title (d_description d)) ''SANRAL''
                             (d_pub_date d) (p_close_date p) (Some doc_list) (Some [])
                             (str_upper (p_tender_number p)) cat reg address
                             (str_title (d_full_notice_text d))))))))))"

subsection \<open>\<open>to_dict\<close>\<close>


fun dec :: "nat \<Rightarrow> string" where
  "dec n = (if n < 10 then [''0123456789'' ! n] else dec (n div 10) @ [''0123456789'' ! (n mod 10)])"








section \<open>The loop of \<open>lambda_handler\<close> over the rows\<close>

text \<open>
  Step 2 of \<open>lambda_handler\<close>: the state is \<open>processed_tenders\<close> and \<open>skipped_count\<close>.
  An object of class \<open>SanralTender\<close> is always true, so \<open>if tender_object\<close> only tests
  for \<open>None\<close>; \<open>except Exception\<close> counts the row as skipped and goes on.
\<close>

fun process_items :: "env \<Rightarrow> pyval list \<Rightarrow> tender list \<times> nat \<Rightarrow> tender list \<times> nat" where
  "process_items E [] (processed_tenders, skipped_count) = (processed_tenders, skipped_count)"
| "process_items E (item # all_tenders) (processed_tenders, skipped_count) =
     (case snd (from_api_response E item) of
        Inr (Some tender_object) \<Rightarrow>
          process_items E all_tenders (processed_tenders @ [tender_object], skipped_count)
      | Inr None \<Rightarrow> process_items E all_tenders (processed_tenders, skipped_count + 1)
      | Inl e \<Rightarrow> process_items E all_tenders (processed_tenders, skipped_count + 1))"


section \<open>Vocabulary of the claims\<close>


definition field :: "pyval list \<Rightarrow> nat \<Rightarrow> string" where
  "field row i = str_of (row ! i)"

text \<open>What the text consumed by one item of a pattern looks like.\<close>

fun seg_ok :: "item \<Rightarrow> string \<Rightarrow> bool" where
  "seg_ok (Rep p n greedy) seg = (n \<le> length seg \<and> list_all p seg)"
| "seg_ok (Alts alts) seg = list_ex (\<lambda>ps. list_all2 (\<lambda>p c. p c) ps seg) alts"









definition valid_email :: "string \<Rightarrow> bool" where
  "valid_email s =
     (\<exists>l d t. s = l @ ''@'' @ d @ ''.'' @ t
              \<and> l \<noteq> [] \<and> list_all local_char l
              \<and> d \<noteq> [] \<and> list_all domain_char d
              \<and> 2 \<le> length t \<and> list_all is_alpha t)"

section \<open>Example inputs\<close>

text \<open>
  An environment without a network: every request fails. The example rows contain no
  ampersand, so \<open>charref_sub\<close> is never called on them.
\<close>

definition offline :: env where
  "offline = \<lparr>charref_sub = (\<lambda>s. s), http_get = (\<lambda>url. RequestException),
              soup = (\<lambda>text. Inl OtherError)\<rparr>"

text \<open>A row of six fields whose category is \<open>None\<close>.\<close>

definition row_without_category :: "pyval list" where
  "row_without_category =
     [PyStr ''RFP 7/2025'', PyNone, PyStr ''Western Cape'', PyStr ''Tender Notice: Fencing'',
      PyStr ''Fencing of the N7'', PyStr ''2025/12/31 14:00'']"







text \<open>A row without hyperlink whose notice text holds two addresses, and its tender.\<close>

definition two_mail_row :: "pyval list" where
  "two_mail_row =
     [PyStr ''RFP 5/2025'', PyStr ''Consulting'', PyStr ''Free State'',
      PyStr ''Tender Notice: Bridge inspection'',
      PyStr ''Queries:  A@x.com   or Info@Sanral.co.za.'', PyStr ''31/01/2026'']"

definition two_mail_tender :: tender where
  "two_mail_tender =
     \<lparr>title = ''N/A'', description = ''Bridge Inspection'', source = ''SANRAL'',
      published_date = None,
      closing_date = Some \<lparr>dt_year = 2026, dt_month = 1, dt_day = 31, dt_hour = 0,
                            dt_minute = 0, dt_second = 0, dt_microsecond = 0\<rparr>,
      supporting_docs = [], tags = [], tender_number = ''N/A'', category = ''Consulting'',
      region = ''Free State'', email = ''info@sanral.co.za'',
      full_notice_text = ''Queries: A@X.Com Or Info@Sanral.Co.Za.''\<rparr>"

section \<open>Properties of the date parser\<close>

lemma strptime_error: "strptime data fmt = Inl e \<Longrightarrow> e = ValueError"
  unfolding strptime_def make_datetime_def
  by (auto split: option.splits prod.splits if_splits simp: Let_def)

lemma attempt_error: "attempt s fmt = Inl e \<Longrightarrow> e = ValueError"
  unfolding attempt_def by (auto split: if_splits dest: strptime_error)

lemma try_formats_returns: "\<exists>r. try_formats s fmts = Inr r"
proof (induction fmts)
  case Nil
  show ?case by simp
next
  case (Cons fmt fmts)
  show ?case
  proof (cases "attempt s fmt")
    case (Inl e)
    then have "e = ValueError" by (rule attempt_error)
    with Inl Cons show ?thesis by simp
  next
    case (Inr d)
    then show ?thesis by simp
  qed
qed






text \<open>
  Claim C2. The verbose form is not parsed: the third format contains the letter
  \<open>H\<close>, so the dot and the \<open>H\<close> are removed from the data, while the format still
  demands them; the attempt fails and the function returns \<open>None\<close> where the claim
  expects 2025-12-31T14:00.
\<close>

theorem verbose_date_not_parsed:
  "parse_sanral_date (PyStr ''31 December 2025. 14H00'') = Inr None"
  by code_simp

text \<open>The input is a non-empty string, so it is the loop that gives up, not the guard.\<close>

theorem verbose_date_not_parsed_witness:
  "truthy (PyStr ''31 December 2025. 14H00'') \<and> is_str (PyStr ''31 December 2025. 14H00'')
   \<and> parse_sanral_date (PyStr ''31 December 2025. 14H00'') = Inr None
   \<and> strptime ''31 December 2025. 14H00'' ''%d %B %Y. %HH%M''
       = Inr \<lparr>dt_year = 2025, dt_month = 12, dt_day = 31, dt_hour = 14, dt_minute = 0,
              dt_second = 0, dt_microsecond = 0\<rparr>"
proof -
  have "strptime ''31 December 2025. 14H00'' ''%d %B %Y. %HH%M''
       = Inr \<lparr>dt_year = 2025, dt_month = 12, dt_day = 31, dt_hour = 14, dt_minute = 0,
              dt_second = 0, dt_microsecond = 0\<rparr>"
    by code_simp
  with verbose_date_not_parsed show ?thesis by simp
qed

section \<open>Rows that are rejected and rows that raise\<close>

text \<open>
  Claim C3. An input that is not a list, and a list of fewer than six elements, make
  \<open>from_api_response\<close> return \<open>None\<close>: no exception, no request, no warning.
\<close>

theorem from_api_response_rejects:
  "(\<not> is_list v \<longrightarrow> from_api_response E v = ([], Inr None))
   \<and> (length xs < 6 \<longrightarrow> from_api_response E (PyList xs) = ([], Inr None))"
  by (simp add: from_api_response_def)

theorem from_api_response_rejects_witness:
  "\<not> is_list (PyDict [(''tenders'', PyNone)])
   \<and> from_api_response offline (PyDict [(''tenders'', PyNone)]) = ([], Inr None)
   \<and> length [PyStr ''Only one item''] < 6
   \<and> from_api_response offline (PyList [PyStr ''Only one item'']) = ([], Inr None)"
  using from_api_response_rejects
          [of "PyDict [(''tenders'', PyNone)]" offline "[PyStr ''Only one item'']"]
  by simp

text \<open>
  Claim C10. The row \<open>row_without_category\<close> has six elements, one of them not a
  string, and \<open>from_api_response\<close> leaves it with \<open>AttributeError\<close> (raised by
  \<open>response_item[1].strip()\<close>) instead of returning. In the loop of \<open>lambda_handler\<close>
  the exception is caught: the row adds one to \<open>skipped_count\<close>, nothing to
  \<open>processed_tenders\<close>, and the loop goes on with the remaining rows.
\<close>

theorem malformed_row_raises_and_is_skipped:
  "6 \<le> length row_without_category
   \<and> (\<exists>v \<in> set row_without_category. \<not> is_str v)
   \<and> snd (from_api_response E (PyList row_without_category)) = Inl AttributeError
   \<and> process_items E (PyList row_without_category # all_tenders) (processed_tenders, skipped_count)
       = process_items E all_tenders (processed_tenders, skipped_count + 1)"
proof -
  have r: "from_api_response E (PyList row_without_category) = ([], Inl AttributeError)"
    by code_simp
  have l: "6 \<le> length row_without_category" by code_simp
  have n: "\<exists>v \<in> set row_without_category. \<not> is_str v"
    unfolding row_without_category_def by simp
  from r l n show ?thesis by simp
qed

theorem malformed_row_raises_and_is_skipped_witness:
  "snd (from_api_response offline (PyList row_without_category)) = Inl AttributeError
   \<and> process_items offline [PyList row_without_category, PyNone] ([], 0) = ([], 2)"
proof -
  have "process_items offline [PyNone] ([], 0 + 1) = ([], 2)" by code_simp
  with malformed_row_raises_and_is_skipped [of offline "[PyNone]" "[]" 0]
  show ?thesis by simp
qed

section \<open>Serialisation\<close>



section \<open>Properties of the patterns\<close>

lemma first_some_SomeD: "first_some f xs = Some y \<Longrightarrow> \<exists>x \<in> set xs. f x = Some y"
  by (induction xs) (auto split: option.splits)

lemma first_some_None_iff: "first_some f xs = None \<longleftrightarrow> (\<forall>x \<in> set xs. f x = None)"
  by (induction xs) (auto split: option.splits)

lemma splits_sound: "(seg, rest) \<in> set (splits i s) \<Longrightarrow> s = seg @ rest \<and> seg_ok i seg"
proof (cases i)
  case (Rep p n greedy)
  assume "(seg, rest) \<in> set (splits i s)"
  with Rep obtain j where j: "n \<le> j" "j \<le> length (takeWhile p s)" "seg = take j s" "rest = drop j s"
    by (auto simp: Let_def split: if_splits)
  have "length (takeWhile p s) \<le> length s" by (rule length_takeWhile_le)
  with j have len: "length seg = j" by simp
  have "take j (takeWhile p s) = take j (take (length (takeWhile p s)) s)"
    using takeWhile_eq_take [of p s] by simp
  with j(2) have "take j s = take j (takeWhile p s)" by (simp add: min_def)
  then have "set seg \<subseteq> set (takeWhile p s)"
    using j(3) by (metis set_take_subset)
  then have "list_all p seg"
    by (auto simp: list_all_iff dest: set_takeWhileD)
  with Rep j len show ?thesis by simp
next
  case (Alts alts)
  assume "(seg, rest) \<in> set (splits i s)"
  with Alts obtain ps where ps: "ps \<in> set alts" "matches_at ps s" "seg = take (length ps) s"
      "rest = drop (length ps) s"
    by auto
  then have "list_all2 (\<lambda>p c. p c) ps seg" by (simp add: matches_at_def)
  with Alts ps show ?thesis by (auto simp: list_ex_iff)
qed

lemma match_items_sound:
  "match_items its s = Some (segs, rest) \<Longrightarrow> s = concat segs @ rest \<and> list_all2 seg_ok its segs"
proof (induction its arbitrary: s segs rest)
  case Nil
  then show ?case by simp
next
  case (Cons i its)
  from Cons.prems obtain seg r where
    sr: "(seg, r) \<in> set (splits i s)"
    and m: "map_option (\<lambda>(segs, r). (seg # segs, r)) (match_items its r) = Some (segs, rest)"
    by (auto dest!: first_some_SomeD)
  from m obtain segs' where m': "match_items its r = Some (segs', rest)" and segs: "segs = seg # segs'"
    by (auto split: prod.splits)
  from Cons.IH [OF m'] splits_sound [OF sr] segs show ?case by simp
qed



section \<open>Well-shaped rows\<close>

lemma length_ge_SucD: "Suc n \<le> length xs \<Longrightarrow> \<exists>y ys. xs = y # ys \<and> n \<le> length ys"
  by (cases xs) auto



lemma parse_sanral_date_returns: "\<exists>r. parse_sanral_date v = Inr r"
  using try_formats_returns by (simp add: parse_sanral_date_def)

lemma parse_row_strings:
  "parse_row E (PyStr f0 # PyStr f1 # PyStr f2 # PyStr f3 # PyStr f4 # v5 # rest) =
     Inr \<lparr>p_url = (case re_search href_rx (html_unescape E f0) of None \<Rightarrow> None
                    | Some (segs, r) \<Rightarrow>
                        if segs ! 1 \<noteq> [] then Some (portal_origin @ segs ! 1) else None),
          p_tender_number = (case re_search href_rx (html_unescape E f0) of None \<Rightarrow> ''N/A''
                             | Some (segs, r) \<Rightarrow> collapse_ws (segs ! 4)),
          p_description =
            str_strip (str_replace ''Tender Notice:'' [] (collapse_ws (html_unescape E f3))),
          p_full_notice_text = collapse_ws (html_unescape E f4),
          p_close_date = (case parse_sanral_date v5 of Inr r \<Rightarrow> r | Inl e \<Rightarrow> None)\<rparr>"
proof -
  obtain r where "parse_sanral_date v5 = Inr r"
    using parse_sanral_date_returns by blast
  then show ?thesis
    by (simp add: parse_row_def split: option.splits prod.splits)
qed

lemma from_api_response_strings:
  assumes "parse_row E (PyStr f0 # PyStr f1 # PyStr f2 # PyStr f3 # PyStr f4 # v5 # rest) = Inr p"
  shows "from_api_response E (PyList (PyStr f0 # PyStr f1 # PyStr f2 # PyStr f3 # PyStr f4 # v5 # rest)) =
    (let d0 = \<lparr>d_title = p_tender_number p, d_description = p_description p,
                d_full_notice_text = p_full_notice_text p, d_pub_date = None\<rparr>;
         (d, evs) = (case p_url p of None \<Rightarrow> (d0, []) | Some url \<Rightarrow> scrape E url d0)
     in (evs, Inr (Some (SanralTender
           (str_title (d_title d)) (str_title (d_description d)) ''SANRAL''
           (d_pub_date d) (p_close_date p)
           (Some (case p_url p of None \<Rightarrow> []
                  | Some url \<Rightarrow> [\<lparr>doc_name = ''Tender Details'', doc_url = url\<rparr>]))
           (Some [])
           (str_upper (p_tender_number p)) (str_title (str_strip f1)) (str_title (str_strip f2))
           (extract_email (d_full_notice_text d))
           (str_title (d_full_notice_text d))))))"
  using assms by (simp add: from_api_response_def Let_def split: prod.splits)





section \<open>The hyperlink and the supporting document\<close>



section \<open>A detail page that cannot be fetched\<close>



section \<open>The provisional description\<close>







section \<open>Properties of the text functions\<close>





lemma upper_not_lower: "is_upper c \<Longrightarrow> \<not> is_lower c"
  unfolding upper_letters_def lower_letters_def is_upper_def is_lower_def by auto

















section \<open>The matches of \<open>findall\<close>\<close>

lemma findall_sound:
  "m \<in> set (findall its s) \<Longrightarrow>
     \<exists>n segs rest. match_items its (drop n s) = Some (segs, rest) \<and> m = concat segs"
proof (induction its s rule: findall.induct)
  case (1 its s)
  show ?case
  proof (cases "match_items its s")
    case None
    with "1.prems" obtain c cs where s: "s = c # cs" and m: "m \<in> set (findall its cs)"
      by (subst (asm) findall.simps) (auto split: list.splits)
    from "1.IH"(1) [OF None s m] obtain n segs rest where
      "match_items its (drop n cs) = Some (segs, rest)" "m = concat segs" by blast
    then have "match_items its (drop (Suc n) s) = Some (segs, rest) \<and> m = concat segs"
      by (simp add: s)
    then show ?thesis by blast
  next
    case (Some sr)
    obtain segs rest where sr: "sr = (segs, rest)" by (cases sr)
    from match_items_sound [OF Some [unfolded sr]] have dec: "s = concat segs @ rest" by simp
    from "1.prems" Some sr consider
        (here) "m = concat segs"
      | (later) "length rest < length s" "m \<in> set (findall its rest)"
      | (step) c cs where "\<not> length rest < length s" "s = c # cs" "m \<in> set (findall its cs)"
      by (subst (asm) findall.simps) (auto split: if_splits list.splits)
    then show ?thesis
    proof cases
      case here
      with Some sr have "match_items its (drop 0 s) = Some (segs, rest) \<and> m = concat segs"
        by simp
      then show ?thesis by blast
    next
      case later
      from "1.IH"(2) [OF Some sr [symmetric] later(1) later(2)] obtain n segs' rest' where
        "match_items its (drop n rest) = Some (segs', rest')" "m = concat segs'" by blast
      moreover have "drop n rest = drop (length (concat segs) + n) s"
        by (subst dec) simp
      ultimately show ?thesis by metis
    next
      case step
      from "1.IH"(3) [OF Some sr [symmetric] step(1) step(2) step(3)] obtain n segs' rest' where
        "match_items its (drop n cs) = Some (segs', rest')" "m = concat segs'" by blast
      then have "match_items its (drop (Suc n) s) = Some (segs', rest') \<and> m = concat segs'"
        by (simp add: step(2))
      then show ?thesis by blast
    qed
  qed
qed

lemma email_segs:
  assumes "list_all2 seg_ok email_rx segs"
  shows "valid_email (concat segs)"
proof -
  from assms obtain l a d dot t where segs: "segs = [l, a, d, dot, t]"
    and l: "1 \<le> length l" "list_all local_char l"
    and a: "list_all2 (\<lambda>p c. p c) [lit (CHR ''@'')] a"
    and d: "1 \<le> length d" "list_all domain_char d"
    and dot: "list_all2 (\<lambda>p c. p c) [lit (CHR ''.'')] dot"
    and t: "2 \<le> length t" "list_all is_alpha t"
    by (auto simp: email_rx_def list_all2_Cons1)
  from a have a': "a = ''@''" by (auto simp: list_all2_Cons1 lit_def)
  from dot have dot': "dot = ''.''" by (auto simp: list_all2_Cons1 lit_def)
  from l d have "l \<noteq> []" "d \<noteq> []" by auto
  with l d t show ?thesis
    unfolding valid_email_def segs a' dot'
    by (intro exI [of _ l] exI [of _ d] exI [of _ t]) simp
qed








lemma splits_complete: "seg_ok i seg \<Longrightarrow> (seg, rest) \<in> set (splits i (seg @ rest))"
proof (cases i)
  case (Rep p n greedy)
  assume "seg_ok i seg"
  with Rep have n: "n \<le> length seg" and p: "list_all p seg" by simp_all
  from p have "takeWhile p (seg @ rest) = seg @ takeWhile p rest"
    by (simp add: list_all_iff takeWhile_append2)
  then have k: "length seg \<le> length (takeWhile p (seg @ rest))" by simp
  have "(seg, rest) = (take (length seg) (seg @ rest), drop (length seg) (seg @ rest))"
    by simp
  moreover from n k have "length seg \<in> set [n ..< Suc (length (takeWhile p (seg @ rest)))]"
    by auto
  ultimately have "(seg, rest) \<in> (\<lambda>j. (take j (seg @ rest), drop j (seg @ rest)))
                       ` set [n ..< Suc (length (takeWhile p (seg @ rest)))]"
    by (rule image_eqI)
  with Rep show ?thesis by (simp add: Let_def)
next
  case (Alts alts)
  assume "seg_ok i seg"
  with Alts obtain ps where ps: "ps \<in> set alts" "list_all2 (\<lambda>p c. p c) ps seg"
    by (auto simp: list_ex_iff)
  then have len: "length ps = length seg" by (simp add: list_all2_lengthD)
  with ps have "matches_at ps (seg @ rest)" by (simp add: matches_at_def)
  with ps len Alts show ?thesis by (auto intro!: image_eqI [where x = ps])
qed

lemma match_items_complete:
  "list_all2 seg_ok its segs \<Longrightarrow> match_items its (concat segs @ rest) \<noteq> None"
proof (induction its arbitrary: segs)
  case Nil
  then show ?case by simp
next
  case (Cons i its)
  from Cons.prems obtain seg segs' where segs: "segs = seg # segs'"
    and ok: "seg_ok i seg" and oks: "list_all2 seg_ok its segs'"
    by (auto simp: list_all2_Cons1)
  from Cons.IH [OF oks] obtain r where r: "match_items its (concat segs' @ rest) = Some r"
    by auto
  have mem: "(seg, concat segs' @ rest) \<in> set (splits i (seg @ concat segs' @ rest))"
    using ok by (rule splits_complete)
  have "first_some
      (\<lambda>(seg, rest). map_option (\<lambda>(segs, r). (seg # segs, r)) (match_items its rest))
      (splits i (seg @ concat segs' @ rest)) \<noteq> None"
    unfolding first_some_None_iff
  proof
    assume "\<forall>x \<in> set (splits i (seg @ concat segs' @ rest)).
      (case x of (seg, rest) \<Rightarrow>
         map_option (\<lambda>(segs, r). (seg # segs, r)) (match_items its rest)) = None"
    from bspec [OF this mem] r show False by simp
  qed
  then show ?case by (simp add: segs)
qed

lemma valid_email_segs:
  assumes "valid_email m"
  shows "\<exists>segs. list_all2 seg_ok email_rx segs \<and> m = concat segs"
proof -
  from assms obtain l d t where m: "m = l @ ''@'' @ d @ ''.'' @ t"
    and p: "l \<noteq> []" "list_all local_char l" "d \<noteq> []" "list_all domain_char d"
      "2 \<le> length t" "list_all is_alpha t"
    by (auto simp: valid_email_def)
  from p have "1 \<le> length l" "1 \<le> length d"
    by (simp_all add: Suc_le_eq)
  with p have "list_all2 seg_ok email_rx [l, ''@'', d, ''.'', t]"
    by (simp add: email_rx_def lit_def)
  moreover have "m = concat [l, ''@'', d, ''.'', t]" by (simp add: m)
  ultimately show ?thesis by blast
qed

lemma findall_Nil_D: "findall its s = [] \<Longrightarrow> match_items its (drop n s) = None"
proof (induction its s arbitrary: n rule: findall.induct)
  case (1 its s)
  from "1.prems" have none: "match_items its s = None"
    by (subst (asm) findall.simps) (auto split: option.splits)
  show ?case
  proof (cases s)
    case Nil
    with none show ?thesis by simp
  next
    case (Cons c cs)
    with "1.prems" none have e: "findall its cs = []"
      by (subst (asm) findall.simps) simp
    show ?thesis
    proof (cases n)
      case 0
      with none show ?thesis by simp
    next
      case (Suc k)
      from "1.IH"(1) [OF none Cons e, of k] show ?thesis by (simp add: Cons Suc)
    qed
  qed
qed

lemma findall_Nil_iff:
  "findall email_rx s = [] \<longleftrightarrow> \<not> (\<exists>pre m post. s = pre @ m @ post \<and> valid_email m)"
proof
  assume e: "findall email_rx s = []"
  show "\<not> (\<exists>pre m post. s = pre @ m @ post \<and> valid_email m)"
  proof
    assume "\<exists>pre m post. s = pre @ m @ post \<and> valid_email m"
    then obtain pre m post where s: "s = pre @ m @ post" and v: "valid_email m" by blast
    from valid_email_segs [OF v] obtain segs where
      "list_all2 seg_ok email_rx segs" "m = concat segs" by blast
    then have "match_items email_rx (m @ post) \<noteq> None"
      using match_items_complete by blast
    moreover have "drop (length pre) s = m @ post" by (simp add: s)
    ultimately show False using findall_Nil_D [OF e, of "length pre"] by simp
  qed
next
  assume n: "\<not> (\<exists>pre m post. s = pre @ m @ post \<and> valid_email m)"
  show "findall email_rx s = []"
  proof (rule ccontr)
    assume "findall email_rx s \<noteq> []"
    then have "hd (findall email_rx s) \<in> set (findall email_rx s)" by simp
    from findall_sound [OF this] obtain k segs rest where
      m: "match_items email_rx (drop k s) = Some (segs, rest)" by blast
    from match_items_sound [OF m] have d: "drop k s = concat segs @ rest"
      and ok: "list_all2 seg_ok email_rx segs" by simp_all
    have "s = take k s @ concat segs @ rest"
      using d by (metis append_take_drop_id)
    moreover from ok have "valid_email (concat segs)" by (rule email_segs)
    ultimately show False using n by blast
  qed
qed

lemma findall_substrings:
  "list_all (\<lambda>m. valid_email m \<and> (\<exists>pre post. s = pre @ m @ post)) (findall email_rx s)"
proof -
  have "valid_email m \<and> (\<exists>pre post. s = pre @ m @ post)" if "m \<in> set (findall email_rx s)" for m
  proof -
    from findall_sound [OF that] obtain k segs rest where
      m: "match_items email_rx (drop k s) = Some (segs, rest)" and c: "m = concat segs" by blast
    from match_items_sound [OF m] have d: "drop k s = concat segs @ rest"
      and ok: "list_all2 seg_ok email_rx segs" by simp_all
    have "s = take k s @ m @ rest"
      using d c by (metis append_take_drop_id)
    moreover from ok c have "valid_email m" by (simp add: email_segs)
    ultimately show ?thesis by blast
  qed
  then show ?thesis by (simp add: list_all_iff)
qed

section \<open>Rows that yield a tender\<close>



lemma unescape_href_str:
  "unescape E v = Inr x \<Longrightarrow> search_href x = Inr m \<Longrightarrow> \<exists>s. v = PyStr s"
  by (cases v) (auto split: if_splits)

lemma unescape_split_str:
  "unescape E v = Inr x \<Longrightarrow> split_join x = Inr y \<Longrightarrow> \<exists>s. v = PyStr s"
  by (cases v) (auto split: if_splits)

lemma strip_title_str: "strip_title v = Inr c \<Longrightarrow> \<exists>s. v = PyStr s"
  by (cases v) auto

lemma parse_row_fields:
  assumes "parse_row E (v0 # v1 # v2 # v3 # v4 # others) = Inr p"
  shows "\<exists>f0 f3 f4. v0 = PyStr f0 \<and> v3 = PyStr f3 \<and> v4 = PyStr f4"
proof -
  from assms obtain x0 m0 where "unescape E v0 = Inr x0" "search_href x0 = Inr m0"
    by (auto simp: parse_row_def split: sum.splits)
  then have 0: "\<exists>s. v0 = PyStr s" by (rule unescape_href_str)
  from assms obtain x3 y3 where "unescape E v3 = Inr x3" "split_join x3 = Inr y3"
    by (auto simp: parse_row_def Let_def split: sum.splits prod.splits)
  then have 3: "\<exists>s. v3 = PyStr s" by (rule unescape_split_str)
  from assms obtain x4 y4 where "unescape E v4 = Inr x4" "split_join x4 = Inr y4"
    by (auto simp: parse_row_def Let_def split: sum.splits prod.splits)
  then have 4: "\<exists>s. v4 = PyStr s" by (rule unescape_split_str)
  from 0 3 4 show ?thesis by blast
qed

lemma from_api_response_row:
  assumes "from_api_response E v = (evs, Inr (Some t))"
  shows "\<exists>f0 f1 f2 f3 f4 v5 rest.
           v = PyList (PyStr f0 # PyStr f1 # PyStr f2 # PyStr f3 # PyStr f4 # v5 # rest)"
proof -
  from assms have l: "is_list v" and n: "\<not> length (items_of v) < 6"
    by (auto simp: from_api_response_def split: if_splits)
  from l obtain row where v: "v = PyList row" by (cases v) auto
  with n have "Suc (Suc (Suc (Suc (Suc (Suc 0))))) \<le> length row" by simp
  then obtain v0 r0 where r0: "row = v0 # r0" "Suc (Suc (Suc (Suc (Suc 0)))) \<le> length r0"
    using length_ge_SucD by blast
  then obtain v1 r1 where r1: "r0 = v1 # r1" "Suc (Suc (Suc (Suc 0))) \<le> length r1"
    using length_ge_SucD by blast
  then obtain v2 r2 where r2: "r1 = v2 # r2" "Suc (Suc (Suc 0)) \<le> length r2"
    using length_ge_SucD by blast
  then obtain v3 r3 where r3: "r2 = v3 # r3" "Suc (Suc 0) \<le> length r3"
    using length_ge_SucD by blast
  then obtain v4 r4 where r4: "r3 = v4 # r4" "Suc 0 \<le> length r4"
    using length_ge_SucD by blast
  then obtain v5 rest where r5: "r4 = v5 # rest"
    using length_ge_SucD by blast
  have row: "row = v0 # v1 # v2 # v3 # v4 # v5 # rest"
    using r0 r1 r2 r3 r4 r5 by simp
  from assms obtain p where p: "parse_row E row = Inr p"
    by (auto simp: from_api_response_def v split: if_splits sum.splits)
  from parse_row_fields [OF p [unfolded row]] obtain f0 f3 f4 where
    f: "v0 = PyStr f0" "v3 = PyStr f3" "v4 = PyStr f4" by blast
  from assms p obtain c1 c2 where "strip_title v1 = Inr c1" "strip_title v2 = Inr c2"
    by (auto simp: from_api_response_def v row Let_def split: if_splits sum.splits prod.splits)
  then obtain f1 f2 where "v1 = PyStr f1" "v2 = PyStr f2"
    using strip_title_str by blast
  with v row f show ?thesis by simp
qed

lemma scrape_notice:
  assumes "scrape E url d0 = (d, evs)"
  shows "d_full_notice_text d = d_full_notice_text d0
       \<or> (\<exists>code body pg. http_get E url = Response code body \<and> soup E body = Inr pg
                          \<and> notice_cell pg = Some (d_full_notice_text d))"
  using assms
  by (auto simp: scrape_def apply_page_def Let_def
           split: http_result.splits if_splits sum.splits option.splits prod.splits)

section \<open>The invariants of a tender\<close>




section \<open>The e-mail address\<close>

text \<open>
  Claim C4. A returned tender has a final notice text (the row's notice field, decoded
  and collapsed, or the notice cell of the detail page) whose title-casing is its
  \<open>fullNoticeText\<close>, and its e-mail is taken from that text: the last of the matches
  \<open>findall\<close> reports, lower-cased, or the empty string when there is none. The matches
  are substrings of the text that are valid addresses, and there is none exactly when
  no substring of the text is a valid address.
\<close>

theorem email_is_last_match:
  assumes "from_api_response E v = (evs, Inr (Some t))"
  shows "\<exists>notice. full_notice_text t = str_title notice
      \<and> (notice = collapse_ws (html_unescape E (field (items_of v) 4))
           \<or> (\<exists>url code body pg. http_get E url = Response code body \<and> soup E body = Inr pg
                  \<and> notice_cell pg = Some notice))
      \<and> email t = (if findall email_rx notice = [] then []
                     else str_lower (last (findall email_rx notice)))
      \<and> (findall email_rx notice = []
            \<longleftrightarrow> \<not> (\<exists>pre m post. notice = pre @ m @ post \<and> valid_email m))
      \<and> list_all (\<lambda>m. valid_email m \<and> (\<exists>pre post. notice = pre @ m @ post))
           (findall email_rx notice)"
proof -
  from from_api_response_row [OF assms] obtain f0 f1 f2 f3 f4 v5 rest where
    v: "v = PyList (PyStr f0 # PyStr f1 # PyStr f2 # PyStr f3 # PyStr f4 # v5 # rest)"
    by (elim exE)
  have f: "field (items_of v) 4 = f4" by (simp add: v field_def)
  obtain p where pr: "parse_row E (PyStr f0 # PyStr f1 # PyStr f2 # PyStr f3 # PyStr f4 # v5 # rest) = Inr p"
    and pn: "p_full_notice_text p = collapse_ws (html_unescape E f4)"
    using parse_row_strings [of E f0 f1 f2 f3 f4 v5 rest] by simp
  define d0 where "d0 = \<lparr>d_title = p_tender_number p, d_description = p_description p,
                d_full_notice_text = p_full_notice_text p, d_pub_date = None\<rparr>"
  obtain d evs' where sc:
    "(case p_url p of None \<Rightarrow> (d0, []) | Some url \<Rightarrow> scrape E url d0) = (d, evs')"
    by (cases "case p_url p of None \<Rightarrow> (d0, []) | Some url \<Rightarrow> scrape E url d0") blast
  from assms have t: "full_notice_text t = str_title (d_full_notice_text d)
      \<and> email t = extract_email (d_full_notice_text d)"
    unfolding v from_api_response_strings [OF pr] Let_def d0_def [symmetric] sc
    by (auto simp: SanralTender_def)
  have src: "d_full_notice_text d = collapse_ws (html_unescape E (field (items_of v) 4))
           \<or> (\<exists>url code body pg. http_get E url = Response code body \<and> soup E body = Inr pg
                  \<and> notice_cell pg = Some (d_full_notice_text d))"
  proof (cases "p_url p")
    case None
    with sc have "d = d0" by simp
    then show ?thesis by (simp add: d0_def pn f)
  next
    case (Some url)
    with sc have "scrape E url d0 = (d, evs')" by simp
    from scrape_notice [OF this] show ?thesis
      by (auto simp: d0_def pn f)
  qed
  have e: "email t = (if findall email_rx (d_full_notice_text d) = [] then []
                      else str_lower (last (findall email_rx (d_full_notice_text d))))"
    using t by (simp add: extract_email_def Let_def)
  from t have ft: "full_notice_text t = str_title (d_full_notice_text d)" by simp
  show ?thesis
    by (intro exI [of _ "d_full_notice_text d"] conjI)
       (rule ft, rule src, rule e, rule findall_Nil_iff, rule findall_substrings)
qed

lemma two_mail_returned:
  "from_api_response offline (PyList two_mail_row) = ([], Inr (Some two_mail_tender))"
  by code_simp

lemma two_mail_found:
  "findall email_rx (collapse_ws (html_unescape offline (field two_mail_row 4)))
     = [''A@x.com'', ''Info@Sanral.co.za'']"
  by code_simp

theorem email_is_last_match_witness:
  "from_api_response offline (PyList two_mail_row) = ([], Inr (Some two_mail_tender))
   \<and> findall email_rx (collapse_ws (html_unescape offline (field two_mail_row 4)))
       = [''A@x.com'', ''Info@Sanral.co.za'']
   \<and> email two_mail_tender = ''info@sanral.co.za''
   \<and> (\<exists>notice. full_notice_text two_mail_tender = str_title notice
          \<and> email two_mail_tender = (if findall email_rx notice = [] then []
                                       else str_lower (last (findall email_rx notice))))"
proof -
  from email_is_last_match [OF two_mail_returned] obtain notice where
    "full_notice_text two_mail_tender = str_title notice"
    "email two_mail_tender = (if findall email_rx notice = [] then []
                              else str_lower (last (findall email_rx notice)))"
    by (elim exE conjE)
  then have "\<exists>notice. full_notice_text two_mail_tender = str_title notice
          \<and> email two_mail_tender = (if findall email_rx notice = [] then []
                                       else str_lower (last (findall email_rx notice)))"
    by blast
  moreover have "email two_mail_tender = ''info@sanral.co.za''"
    by (simp add: two_mail_tender_def)
  ultimately show ?thesis using two_mail_returned two_mail_found by simp
qed

end
